theory Spec2Isabelle
  imports Complex_Main "HOL-Library.AList"
begin

text \<open>
  A model of the job handling of the encoder bot: the search for the downloaded file and
  the monitoring loop of \<open>downloader.py\<close>, the concurrency limit of \<open>encoder.py\<close>, the
  chunked upload of \<open>uploader.py\<close>, and the three registries of active jobs. What the
  operating system, the fetch process and the Drive client do is an input of each
  function; every \<open>raise\<close> and every early \<open>return\<close> of the source is a branch.
\<close>

section \<open>Python string helpers used by the sources\<close>

text \<open>
  File names are modelled as ASCII strings. \<open>lower\<close> is \<open>str.lower\<close> on ASCII letters,
  \<open>endswith\<close> is \<open>str.endswith\<close>, \<open>py_in p s\<close> is the substring test \<open>p in s\<close> and
  \<open>replace_star\<close> is \<open>pattern.replace('*', '')\<close>.
\<close>

definition lower_char :: "char \<Rightarrow> char" where
  "lower_char c =
     (case map_of (zip ''ABCDEFGHIJKLMNOPQRSTUVWXYZ'' ''abcdefghijklmnopqrstuvwxyz'') c of
        None \<Rightarrow> c
      | Some d \<Rightarrow> d)"

definition lower :: "string \<Rightarrow> string" where
  "lower s = map lower_char s"

fun startswith :: "string \<Rightarrow> string \<Rightarrow> bool" where
  "startswith s [] = True"
| "startswith [] (p # ps) = False"
| "startswith (c # cs) (p # ps) = (c = p \<and> startswith cs ps)"

definition endswith :: "string \<Rightarrow> string \<Rightarrow> bool" where
  "endswith s suf = startswith (rev s) (rev suf)"

fun py_in :: "string \<Rightarrow> string \<Rightarrow> bool" where
  "py_in p [] = (p = [])"
| "py_in p (c # cs) = (startswith (c # cs) p \<or> py_in p cs)"

definition replace_star :: "string \<Rightarrow> string" where
  "replace_star pattern = filter (\<lambda>c. c \<noteq> CHR ''*'') pattern"

text \<open>
  \<open>os.path.join(output_dir, file)\<close> for a \<open>file\<close> that is a plain name (no path
  separator in it, as the names \<open>os.listdir\<close> gives; a desired name is taken to be one
  too), and the extension part of \<open>os.path.splitext\<close>: the text from the last dot of the
  name on, unless only dots precede that dot (or there is no dot), in which case the
  extension is empty.
\<close>

definition path_join :: "string \<Rightarrow> string \<Rightarrow> string" where
  "path_join d f = d @ ''/'' @ f"

definition splitext_ext :: "string \<Rightarrow> string" where
  "splitext_ext file =
     (let tail_part = rev (takeWhile (\<lambda>c. c \<noteq> CHR ''.'') (rev file));
          head_part = rev (dropWhile (\<lambda>c. c \<noteq> CHR ''.'') (rev file))
      in if head_part = [] then []
         else if list_all (\<lambda>c. c = CHR ''.'') (butlast head_part) then []
         else CHR ''.'' # tail_part)"

section \<open>The output directory\<close>

text \<open>
  One entry of \<open>os.listdir(output_dir)\<close> with what the source reads of it:
  \<open>os.path.isfile\<close>, \<open>os.path.getsize\<close> (bytes) and \<open>os.path.getmtime\<close> (seconds).
  A directory is the list of its entries in listing order; \<open>None\<close> is a directory that
  does not exist. Times are real numbers of seconds, where the source has floats. The
  directory does not change while \<open>find_downloaded_file\<close> reads it, so the reads
  themselves do not raise.
\<close>

record dirent =
  name :: string
  isfile :: bool
  getsize :: nat
  getmtime :: real

type_synonym listing = "dirent list"

definition os_path_exists :: "listing \<Rightarrow> string \<Rightarrow> bool" where
  "os_path_exists all_files n = list_ex (\<lambda>f. name f = n) all_files"

text \<open>
  \<open>os.remove\<close> and \<open>os.rename\<close> raise \<open>OSError\<close> when the operating system refuses;
  \<open>os.remove\<close> always raises on a directory. The refusals are inputs of the model.
\<close>

record os_faults =
  remove_fails :: bool
  rename_fails :: bool

definition os_remove :: "os_faults \<Rightarrow> listing \<Rightarrow> string \<Rightarrow> listing option" where
  "os_remove flt all_files n =
     (if remove_fails flt \<or> list_ex (\<lambda>f. name f = n \<and> \<not> isfile f) all_files then None
      else Some (filter (\<lambda>f. name f \<noteq> n) all_files))"

definition os_rename :: "os_faults \<Rightarrow> listing \<Rightarrow> string \<Rightarrow> string \<Rightarrow> listing option" where
  "os_rename flt all_files old new =
     (if rename_fails flt then None
      else Some (map (\<lambda>f. if name f = old then f\<lparr>name := new\<rparr> else f) all_files))"

section \<open>downloader.py: find_downloaded_file\<close>

definition video_extensions :: "string list" where
  "video_extensions =
     [''.mkv'', ''.mp4'', ''.avi'', ''.mov'', ''.wmv'', ''.flv'', ''.webm'', ''.m4v'',
      ''.ts'', ''.m2ts'']"

definition is_video :: "string \<Rightarrow> bool" where
  "is_video file = list_ex (\<lambda>ext. endswith (lower file) ext) video_extensions"

definition age_hours :: "real \<Rightarrow> dirent \<Rightarrow> real" where
  "age_hours current_time f = (current_time - getmtime f) / 3600"

text \<open>
  The scanning loop of the source: one pass over \<open>all_files\<close> that appends every regular
  file with a video extension to \<open>candidate_files\<close> and, when it is at most 3 hours old,
  to \<open>recent_files\<close> as well. The result is the pair \<open>(recent_files, candidate_files)\<close>.
\<close>

fun scan_files :: "real \<Rightarrow> listing \<Rightarrow> listing \<times> listing" where
  "scan_files current_time [] = ([], [])"
| "scan_files current_time (f # fs) =
     (let (recent_files, candidate_files) = scan_files current_time fs
      in if \<not> isfile f then (recent_files, candidate_files)
         else if is_video (name f) then
           (if age_hours current_time f \<le> 3 then (f # recent_files, f # candidate_files)
            else (recent_files, f # candidate_files))
         else (recent_files, candidate_files))"

definition recent_files :: "real \<Rightarrow> listing \<Rightarrow> listing" where
  "recent_files current_time all_files = fst (scan_files current_time all_files)"

definition candidate_files :: "real \<Rightarrow> listing \<Rightarrow> listing" where
  "candidate_files current_time all_files = snd (scan_files current_time all_files)"

definition target_files :: "real \<Rightarrow> listing \<Rightarrow> listing" where
  "target_files current_time all_files =
     (if recent_files current_time all_files \<noteq> [] then recent_files current_time all_files
      else candidate_files current_time all_files)"

text \<open>\<open>max(target_files, key=os.path.getsize)\<close>: the first element of greatest size.\<close>

fun py_max_from :: "dirent \<Rightarrow> listing \<Rightarrow> dirent" where
  "py_max_from best [] = best"
| "py_max_from best (f # fs) = py_max_from (if getsize best < getsize f then f else best) fs"

definition largest_of :: "listing \<Rightarrow> dirent option" where
  "largest_of fs = (case fs of [] \<Rightarrow> None | f # rest \<Rightarrow> Some (py_max_from f rest))"

definition temp_patterns :: "string list" where
  "temp_patterns = [''.aria2'', ''.part'', ''.downloading'', ''*.tmp'']"

definition is_temp :: "string \<Rightarrow> bool" where
  "is_temp file = list_ex (\<lambda>pattern. py_in (replace_star pattern) (lower file)) temp_patterns"

definition temp_files :: "listing \<Rightarrow> listing" where
  "temp_files all_files = filter (\<lambda>f. is_temp (name f)) all_files"

definition desperate_ok :: "real \<Rightarrow> dirent \<Rightarrow> bool" where
  "desperate_ok current_time f =
     (isfile f \<and> 10 * 1024 * 1024 < getsize f \<and> age_hours current_time f \<le> 2)"

text \<open>
  The renaming tail of the source (\<open>if custom_name: ...\<close>), on the selected file. The
  \<open>try\<close> covers the removal of an existing destination and the rename; either failing
  returns the path of the selected file. The second component is the directory afterwards.
\<close>

definition new_name_for :: "string \<Rightarrow> dirent \<Rightarrow> string" where
  "new_name_for custom_name largest_file =
     (let ext = (if splitext_ext (name largest_file) = [] then ''.mkv''
                 else splitext_ext (name largest_file))
      in custom_name @ ext)"

definition rename_result ::
  "os_faults \<Rightarrow> string \<Rightarrow> listing \<Rightarrow> string \<Rightarrow> dirent \<Rightarrow> string option \<times> listing" where
  "rename_result flt output_dir all_files custom_name largest_file =
     (let new_name = new_name_for custom_name largest_file
      in if os_path_exists all_files new_name \<and> new_name \<noteq> name largest_file then
           (case os_remove flt all_files new_name of
              None \<Rightarrow> (Some (path_join output_dir (name largest_file)), all_files)
            | Some fs1 \<Rightarrow>
                (case os_rename flt fs1 (name largest_file) new_name of
                   None \<Rightarrow> (Some (path_join output_dir (name largest_file)), fs1)
                 | Some fs2 \<Rightarrow> (Some (path_join output_dir new_name), fs2)))
         else if name largest_file \<noteq> new_name then
           (case os_rename flt all_files (name largest_file) new_name of
              None \<Rightarrow> (Some (path_join output_dir (name largest_file)), all_files)
            | Some fs2 \<Rightarrow> (Some (path_join output_dir new_name), fs2))
         else (Some (path_join output_dir new_name), all_files))"

text \<open>
  \<open>find_downloaded_file(output_dir, custom_name)\<close> at time \<open>current_time\<close>. The result is
  the returned path (\<open>None\<close> is Python's \<open>None\<close>) and the directory afterwards.
\<close>

definition find_in_listing ::
  "os_faults \<Rightarrow> real \<Rightarrow> string \<Rightarrow> listing \<Rightarrow> string \<Rightarrow> string option \<times> listing" where
  "find_in_listing flt current_time output_dir all_files custom_name =
     (case largest_of (target_files current_time all_files) of
        None \<Rightarrow>
          (if temp_files all_files \<noteq> [] then (None, all_files)
           else (case find (desperate_ok current_time) all_files of
                   Some f \<Rightarrow> (Some (path_join output_dir (name f)), all_files)
                 | None \<Rightarrow> (None, all_files)))
      | Some largest_file \<Rightarrow>
          (if custom_name \<noteq> [] then
             rename_result flt output_dir all_files custom_name largest_file
           else (Some (path_join output_dir (name largest_file)), all_files)))"

definition find_downloaded_file ::
  "os_faults \<Rightarrow> real \<Rightarrow> string \<Rightarrow> listing option \<Rightarrow> string \<Rightarrow> string option \<times> listing option" where
  "find_downloaded_file flt current_time output_dir dir custom_name =
     (case dir of
        None \<Rightarrow> (None, None)
      | Some all_files \<Rightarrow>
          (let (r, fs) = find_in_listing flt current_time output_dir all_files custom_name
           in (r, Some fs)))"

section \<open>encoder.py: FastVideoEncoder\<close>

text \<open>
  \<open>active_encodes\<close> is a dictionary, kept as an association list in insertion order.
  The key \<open>f"{int(time.time())}_{user_info.replace(' ', '_')[:8]}"\<close> is kept as the pair
  of its two parts, which the format renders injectively. \<open>removed_encodes\<close> is not a
  field of the source: it records the calls of \<open>remove_active_encode\<close> in order.
\<close>

type_synonym encode_id = "int \<times> string"

record encode_info =
  enc_user :: string
  enc_start_time :: real
  enc_status :: string

record encoder =
  active_encodes :: "(encode_id \<times> encode_info) list"
  removed_encodes :: "encode_id list"

definition max_concurrent_encodes :: nat where
  "max_concurrent_encodes = 3"

definition encoder_init :: encoder where
  "encoder_init = \<lparr>active_encodes = [], removed_encodes = []\<rparr>"

definition can_start_new_encode :: "encoder \<Rightarrow> bool" where
  "can_start_new_encode e = (length (active_encodes e) < max_concurrent_encodes)"

definition get_active_encode_count :: "encoder \<Rightarrow> nat" where
  "get_active_encode_count e = length (active_encodes e)"

definition add_active_encode :: "encoder \<Rightarrow> encode_id \<Rightarrow> string \<Rightarrow> real \<Rightarrow> encoder" where
  "add_active_encode e encode_id user_info time_now =
     e\<lparr>active_encodes :=
         AList.update encode_id
           \<lparr>enc_user = user_info, enc_start_time = time_now, enc_status = ''running''\<rparr>
           (active_encodes e)\<rparr>"

definition remove_active_encode :: "encoder \<Rightarrow> encode_id \<Rightarrow> encoder" where
  "remove_active_encode e encode_id =
     e\<lparr>active_encodes := AList.delete encode_id (active_encodes e),
       removed_encodes := removed_encodes e @ [encode_id]\<rparr>"

definition stop_encode :: "encoder \<Rightarrow> encode_id \<Rightarrow> bool \<times> encoder" where
  "stop_encode e encode_id =
     (if encode_id \<in> fst ` set (active_encodes e) then
        (True, e\<lparr>active_encodes :=
                  AList.map_entry encode_id (\<lambda>i. i\<lparr>enc_status := ''stopped''\<rparr>) (active_encodes e)\<rparr>)
      else (False, e))"

definition cleanup_all_processes :: "encoder \<Rightarrow> encoder" where
  "cleanup_all_processes e = e\<lparr>active_encodes := []\<rparr>"

text \<open>Python's \<open>int(x)\<close> on a float: truncation towards zero.\<close>

definition py_int :: "real \<Rightarrow> int" where
  "py_int x = (if 0 \<le> x then \<lfloor>x\<rfloor> else \<lceil>x\<rceil>)"

definition make_encode_id :: "real \<Rightarrow> string \<Rightarrow> encode_id" where
  "make_encode_id time_now user_info =
     (py_int time_now, take 8 (map (\<lambda>c. if c = CHR '' '' then CHR ''_'' else c) user_info))"

text \<open>
  \<open>encode_single_pass\<close> up to its first \<open>await\<close>: the capacity check, the three
  \<open>os.path.exists\<close> checks (their results are the argument \<open>exist\<close>, for the intro, the
  episode and the subtitle) and \<open>add_active_encode\<close>. No other coroutine runs in between,
  so this prefix is one step of the event loop.
\<close>

datatype admission =
    EncodeLimit nat nat
  | FileMissing string
  | Admitted encode_id

definition files_to_check :: "bool \<times> bool \<times> bool \<Rightarrow> (string \<times> bool) list" where
  "files_to_check exist =
     (case exist of (intro, episode, subtitle) \<Rightarrow>
        [(''Intro'', intro), (''Episode'', episode), (''Subtitle'', subtitle)])"

definition encode_single_pass_begin ::
  "encoder \<Rightarrow> real \<Rightarrow> bool \<times> bool \<times> bool \<Rightarrow> string \<Rightarrow> admission \<times> encoder" where
  "encode_single_pass_begin e time_now exist user_info =
     (if \<not> can_start_new_encode e then
        (EncodeLimit (get_active_encode_count e) max_concurrent_encodes, e)
      else
        (case find (\<lambda>(n, ex). \<not> ex) (files_to_check exist) of
           Some (n, ex) \<Rightarrow> (FileMissing n, e)
         | None \<Rightarrow>
             (Admitted (make_encode_id time_now user_info),
              add_active_encode e (make_encode_id time_now user_info) user_info time_now)))"

text \<open>
  The rest of \<open>encode_single_pass\<close>, once the executor task is done:
  \<open>result = await encoding_task\<close> either yields the dictionary \<open>_run_simple_encoding\<close>
  returned (its \<open>success\<close> and \<open>message\<close> are kept) or re-raises what it raised; nothing in
  \<open>encode_single_pass\<close> catches that, so \<open>remove_active_encode\<close> is then not reached.
\<close>

datatype 'a outcome = Returns 'a | Raises

datatype encode_result = Finished bool string | Propagated

definition encode_single_pass_end ::
  "encoder \<Rightarrow> encode_id \<Rightarrow> (bool \<times> string) outcome \<Rightarrow> encode_result \<times> encoder" where
  "encode_single_pass_end e encode_id task =
     (case task of
        Raises \<Rightarrow> (Propagated, e)
      | Returns (success, message) \<Rightarrow> (Finished success message, remove_active_encode e encode_id))"

text \<open>
  What can happen to the encoder, one step at a time: a submission, the end of a running
  encode, \<open>stop_encode\<close> and \<open>cleanup_all_processes\<close>.
\<close>

datatype encoder_event =
    Submit real "bool \<times> bool \<times> bool" string
  | Finish encode_id "(bool \<times> string) outcome"
  | Stop encode_id
  | Cleanup

fun encoder_step :: "encoder \<Rightarrow> encoder_event \<Rightarrow> encoder" where
  "encoder_step e (Submit time_now exist user_info) =
     snd (encode_single_pass_begin e time_now exist user_info)"
| "encoder_step e (Finish encode_id task) = snd (encode_single_pass_end e encode_id task)"
| "encoder_step e (Stop encode_id) = snd (stop_encode e encode_id)"
| "encoder_step e Cleanup = cleanup_all_processes e"

definition encoder_run :: "encoder_event list \<Rightarrow> encoder" where
  "encoder_run evs = foldl encoder_step encoder_init evs"

text \<open>
  Calls of \<open>encode_single_pass\<close> made one after the other while none of the encodes
  admitted before has finished: each call runs up to its first \<open>await\<close>. The result is
  what each call was told, and the encoder afterwards.
\<close>

fun submissions ::
  "encoder \<Rightarrow> (real \<times> (bool \<times> bool \<times> bool) \<times> string) list \<Rightarrow> admission list \<times> encoder" where
  "submissions e [] = ([], e)"
| "submissions e ((time_now, exist, user_info) # calls) =
     (case encode_single_pass_begin e time_now exist user_info of
        (a, e1) \<Rightarrow> (case submissions e1 calls of (as, e2) \<Rightarrow> (a # as, e2)))"

section \<open>downloader.py: download_magnet_fast\<close>

text \<open>
  \<open>SimpleDownloadManager\<close>. \<open>download_calls\<close> is not a field of the source: it records
  the calls of \<open>add_download\<close> and \<open>remove_download\<close> in order. The process handle of the
  source's info dictionary is left out.
\<close>

datatype registry_call = Add string | Remove string

record download_info =
  dl_start_time :: real
  dl_status :: string
  dl_name :: string

record download_manager =
  active_downloads :: "(string \<times> download_info) list"
  download_calls :: "registry_call list"

definition add_download :: "download_manager \<Rightarrow> string \<Rightarrow> download_info \<Rightarrow> download_manager" where
  "add_download m download_id info =
     m\<lparr>active_downloads := AList.update download_id info (active_downloads m),
       download_calls := download_calls m @ [Add download_id]\<rparr>"

definition remove_download :: "download_manager \<Rightarrow> string \<Rightarrow> download_manager" where
  "remove_download m download_id =
     m\<lparr>active_downloads := AList.delete download_id (active_downloads m),
       download_calls := download_calls m @ [Remove download_id]\<rparr>"

text \<open>
  The monitoring loop. One \<open>tick\<close> is one iteration: the value of \<open>time.time()\<close> at its
  top, whether aria2c has written output since the previous iteration (only the
  \<open>read_output\<close> task sees that), and what the iteration meets: the process exits within
  the 2 second \<open>wait_for\<close>, it is still running after the wait and the sleep, it exits
  during the sleep, or something in the iteration raises.
\<close>

datatype poll = Exits int | StillRunning | ExitsDuringSleep int | MonitorRaises

record tick =
  tick_time :: real
  output_seen :: bool
  polled :: poll

datatype loop_exit = TotalTimeout | ProcessExited int | MonitoringError | StillMonitoring

definition max_idle_time :: real where
  "max_idle_time = 300"

definition max_total_time :: real where
  "max_total_time = 1800"

fun monitor :: "real \<Rightarrow> real \<Rightarrow> tick list \<Rightarrow> loop_exit" where
  "monitor start_time last_update [] = StillMonitoring"
| "monitor start_time last_update (tk # rest) =
     (if tick_time tk - start_time > max_total_time then TotalTimeout
      else (case polled tk of
              Exits rc \<Rightarrow> ProcessExited rc
            | MonitorRaises \<Rightarrow> MonitoringError
            | ExitsDuringSleep rc \<Rightarrow> ProcessExited rc
            | StillRunning \<Rightarrow>
                monitor start_time
                  (if tick_time tk - last_update > 5 then tick_time tk else last_update) rest))"

text \<open>
  After the loop a process that is still running is terminated: it exits within 10
  seconds of \<open>terminate()\<close> with some return code, or the \<open>except\<close> branch calls
  \<open>kill()\<close>, which may itself raise.
\<close>

datatype term_outcome = Graceful int | Killed | KillRaises

definition basename :: "string \<Rightarrow> string" where
  "basename p = rev (takeWhile (\<lambda>c. c \<noteq> CHR ''/'') (rev p))"

record download_env =
  aria2_found :: bool
  spawn_ok :: bool
  ticks :: "tick list"
  terminated :: term_outcome
  search_time :: real
  faults :: os_faults
  getsize_raises :: bool

datatype download_message =
    Aria2Missing
  | Downloaded string
  | FileNotFound "int option"
  | CriticalError

text \<open>
  \<open>download_magnet_fast\<close>. It first creates the output directory when it is missing
  (\<open>os.makedirs\<close> with \<open>exist_ok\<close>). The result is \<open>None\<close> when the ticks end while the
  loop is still running; otherwise the manager, the returned pair and the directory
  afterwards.
  \<open>getsize_raises\<close> is \<open>os.path.getsize(result_file)\<close> raising after the search.
\<close>

definition finish_download ::
  "download_env \<Rightarrow> download_manager \<Rightarrow> string \<Rightarrow> string \<Rightarrow> string \<Rightarrow> listing option
     \<Rightarrow> int option \<Rightarrow> download_manager \<times> (bool \<times> download_message) \<times> listing option" where
  "finish_download env m1 download_id custom_name output_dir dir return_code =
     (let m2 = remove_download m1 download_id;
          (result_file, dir2) =
             find_downloaded_file (faults env) (search_time env) output_dir dir custom_name
      in case result_file of
           Some p \<Rightarrow>
             (if getsize_raises env then
                (remove_download m2 download_id, (False, CriticalError), dir2)
              else (m2, (True, Downloaded (basename p)), dir2))
         | None \<Rightarrow> (m2, (False, FileNotFound return_code), dir2))"

definition os_makedirs :: "listing option \<Rightarrow> listing option" where
  "os_makedirs dir = (case dir of None \<Rightarrow> Some [] | Some all_files \<Rightarrow> Some all_files)"

definition download_magnet_fast ::
  "download_env \<Rightarrow> download_manager \<Rightarrow> string \<Rightarrow> real \<Rightarrow> string \<Rightarrow> string \<Rightarrow> listing option
     \<Rightarrow> (download_manager \<times> (bool \<times> download_message) \<times> listing option) option" where
  "download_magnet_fast env m download_id start_time custom_name output_dir dir0 =
     (let dir = os_makedirs dir0
      in if \<not> aria2_found env then Some (m, (False, Aria2Missing), dir)
      else if \<not> spawn_ok env then
        Some (remove_download m download_id, (False, CriticalError), dir)
      else
        (let m1 = add_download m download_id
                    \<lparr>dl_start_time = start_time, dl_status = ''downloading'',
                     dl_name = custom_name\<rparr>
         in case monitor start_time 0 (ticks env) of
              StillMonitoring \<Rightarrow> None
            | ProcessExited rc \<Rightarrow>
                Some (finish_download env m1 download_id custom_name output_dir dir (Some rc))
            | _ \<Rightarrow>
                (case terminated env of
                   KillRaises \<Rightarrow>
                     Some (remove_download m1 download_id, (False, CriticalError), dir)
                 | Killed \<Rightarrow>
                     Some (finish_download env m1 download_id custom_name output_dir dir None)
                 | Graceful rc \<Rightarrow>
                     Some (finish_download env m1 download_id custom_name output_dir dir
                             (Some rc)))))"

section \<open>uploader.py: UploadManager and upload_video\<close>








section \<open>uploader.py: upload_with_progress\<close>

text \<open>
  What the Drive client does is an input. One \<open>chunk_outcome\<close> is one call of
  \<open>request.next_chunk()\<close>: it returns \<open>(status, response)\<close> or raises. A status is kept
  as the pair of \<open>int(status.progress() * 100)\<close> and the elapsed time
  \<open>current_time - start_time\<close>; a response is kept as its \<open>id\<close>, the empty string for a
  response that is empty or has no id. \<open>HttpError status q\<close> carries \<open>resp.status\<close> and
  whether the text of the error mentions \<open>quota\<close> or \<open>rate\<close>; \<open>OtherError net\<close> is any other
  exception, with whether its text mentions one of \<open>network\<close>, \<open>connection\<close>, \<open>timeout\<close>,
  \<open>ssl\<close>, \<open>socket\<close>.
\<close>

datatype chunk_outcome =
    Chunk "(int \<times> real) option" "string option"
  | HttpError nat bool
  | OtherError bool

text \<open>
  What the caller can observe while the upload runs: a call of \<open>authenticate\<close>, the
  creation of a new resumable request, a call of the progress callback with a percent
  value, the 0.1 second pause after a status, and the two kinds of retry delay in
  seconds.
\<close>

datatype upload_event =
    Authenticate
  | NewRequest
  | Progress int
  | Pace
  | ChunkBackoff nat
  | AttemptBackoff nat

datatype loop_result =
    Responded string
  | RaisedHttp nat bool
  | RaisedOther bool
  | OutOfChunks

definition emit ::
  "upload_event list \<Rightarrow> loop_result \<times> chunk_outcome list \<times> upload_event list
     \<Rightarrow> loop_result \<times> chunk_outcome list \<times> upload_event list" where
  "emit evs r = (case r of (res, rest, out) \<Rightarrow> (res, rest, evs @ out))"

text \<open>
  The loop \<open>while response is None\<close>, with its variables \<open>last_progress\<close>, \<open>stall_count\<close>
  and \<open>retry_chunk_count\<close>. \<open>on_status\<close> is what one iteration does after \<open>next_chunk\<close>
  has returned: \<open>retry_chunk_count = 0\<close> and the block \<open>if status:\<close>; it gives the events
  and the new values of the three variables. The exception raised for a stalled upload
  is raised inside the \<open>try\<close>, so the handler for other exceptions catches it, with
  \<open>retry_chunk_count = 1\<close>, sleeps 2 seconds and continues. \<open>chunk_loop\<close> gives how the
  loop ends, the outcomes not yet consumed, and the events in order.
\<close>

definition on_status ::
  "int \<Rightarrow> nat \<Rightarrow> (int \<times> real) option \<Rightarrow> upload_event list \<times> int \<times> nat \<times> nat" where
  "on_status last_progress stall_count status =
     (case status of
        None \<Rightarrow> ([], last_progress, stall_count, 0)
      | Some (progress, elapsed_time) \<Rightarrow>
          if progress > last_progress \<and> elapsed_time > 0 then
            ([Progress progress, Pace], progress, 0, 0)
          else if progress = last_progress then
            (if stall_count + 1 > 50 then ([ChunkBackoff 2], last_progress, stall_count + 1, 1)
             else ([Pace], last_progress, stall_count + 1, 0))
          else ([Pace], last_progress, stall_count, 0))"

fun chunk_loop ::
  "int \<Rightarrow> nat \<Rightarrow> nat \<Rightarrow> chunk_outcome list
     \<Rightarrow> loop_result \<times> chunk_outcome list \<times> upload_event list" where
  "chunk_loop last_progress stall_count retry_chunk_count [] = (OutOfChunks, [], [])"
| "chunk_loop last_progress stall_count retry_chunk_count (Chunk status response # rest) =
     (case on_status last_progress stall_count status of
        (evs, last_progress', stall_count', retry_chunk_count') \<Rightarrow>
          emit evs
            (case response of
               None \<Rightarrow> chunk_loop last_progress' stall_count' retry_chunk_count' rest
             | Some file_id \<Rightarrow> (Responded file_id, rest, [])))"
| "chunk_loop last_progress stall_count retry_chunk_count (HttpError status q # rest) =
     (if status \<in> set [500, 502, 503, 504] then
        (if retry_chunk_count + 1 \<ge> 5 then (RaisedHttp status q, rest, [])
         else emit [ChunkBackoff (min ((retry_chunk_count + 1) * 2) 10)]
                (chunk_loop last_progress stall_count (retry_chunk_count + 1) rest))
      else (RaisedHttp status q, rest, []))"
| "chunk_loop last_progress stall_count retry_chunk_count (OtherError net # rest) =
     (if retry_chunk_count + 1 \<ge> 3 then (RaisedOther net, rest, [])
      else emit [ChunkBackoff ((retry_chunk_count + 1) * 2)]
             (chunk_loop last_progress stall_count (retry_chunk_count + 1) rest))"

text \<open>
  The attempt loop \<open>for attempt in range(max_retries)\<close>. The state is whether
  \<open>self.service\<close> is set, the outcomes of the calls of \<open>authenticate\<close> and of
  \<open>next_chunk\<close> still to come, and the events so far.
\<close>

datatype auth_outcome = AuthOk | AuthFails | AuthRaises bool

datatype upload_failure =
    FileMissingError
  | EmptyFileError
  | AuthFailedAllRetries
  | QuotaOrRateLimit
  | PermissionDenied
  | EndpointNotFound
  | AuthenticationFailed
  | ServerError nat
  | ApiError nat
  | FailedAfterAttempts
  | UnknownReason

datatype upload_result = UploadOk string | UploadFailed upload_failure | OutOfScript

datatype attempt_result = Return upload_result | NextAttempt

record upload_state =
  service :: bool
  auths :: "auth_outcome list"
  chunks :: "chunk_outcome list"
  trace :: "upload_event list"

definition backoff :: "nat \<Rightarrow> upload_state \<Rightarrow> upload_state" where
  "backoff attempt st = st\<lparr>trace := trace st @ [AttemptBackoff (2 ^ attempt)]\<rparr>"

text \<open>The handler \<open>except Exception as e\<close> of an attempt.\<close>

definition handle_other :: "nat \<Rightarrow> nat \<Rightarrow> bool \<Rightarrow> upload_state \<Rightarrow> attempt_result \<times> upload_state" where
  "handle_other attempt max_retries net st =
     (if net \<and> attempt + 1 < max_retries then (NextAttempt, backoff attempt st)
      else if attempt + 1 = max_retries then (Return (UploadFailed FailedAfterAttempts), st)
      else (NextAttempt, st))"

text \<open>The handler \<open>except HttpError as e\<close> of an attempt.\<close>

definition handle_http ::
  "nat \<Rightarrow> nat \<Rightarrow> nat \<Rightarrow> bool \<Rightarrow> upload_state \<Rightarrow> attempt_result \<times> upload_state" where
  "handle_http attempt max_retries status q st =
     (if status = 403 then
        (Return (UploadFailed (if q then QuotaOrRateLimit else PermissionDenied)), st)
      else if status = 404 then (Return (UploadFailed EndpointNotFound), st)
      else if status = 401 then
        (if attempt + 1 < max_retries then (NextAttempt, backoff attempt (st\<lparr>service := False\<rparr>))
         else (Return (UploadFailed AuthenticationFailed), st\<lparr>service := False\<rparr>))
      else if status \<ge> 500 then
        (if attempt + 1 < max_retries then (NextAttempt, backoff attempt st)
         else (Return (UploadFailed (ServerError status)), st))
      else (Return (UploadFailed (ApiError status)), st))"

text \<open>
  The body of an attempt from the creation of \<open>MediaFileUpload\<close> and of the request on:
  every attempt builds a new request and starts the loop with \<open>last_progress = 0\<close>.
\<close>

definition transfer :: "nat \<Rightarrow> nat \<Rightarrow> upload_state \<Rightarrow> attempt_result \<times> upload_state" where
  "transfer attempt max_retries st =
     (case chunk_loop 0 0 0 (chunks st) of
        (res, rest, evs) \<Rightarrow>
          (let st2 = st\<lparr>chunks := rest, trace := trace st @ [NewRequest] @ evs\<rparr>
           in case res of
                Responded file_id \<Rightarrow>
                  (if file_id = [] then handle_other attempt max_retries False st2
                   else (Return (UploadOk file_id), st2))
              | RaisedHttp status q \<Rightarrow> handle_http attempt max_retries status q st2
              | RaisedOther net \<Rightarrow> handle_other attempt max_retries net st2
              | OutOfChunks \<Rightarrow> (Return OutOfScript, st2)))"

definition attempt_body :: "nat \<Rightarrow> nat \<Rightarrow> upload_state \<Rightarrow> attempt_result \<times> upload_state" where
  "attempt_body attempt max_retries st =
     (if \<not> service st then
        (case auths st of
           [] \<Rightarrow> (Return OutOfScript, st)
         | a # later \<Rightarrow>
             (let st1 = st\<lparr>auths := later, trace := trace st @ [Authenticate]\<rparr>
              in case a of
                   AuthOk \<Rightarrow> transfer attempt max_retries (st1\<lparr>service := True\<rparr>)
                 | AuthFails \<Rightarrow>
                     (if attempt + 1 = max_retries then
                        (Return (UploadFailed AuthFailedAllRetries), st1)
                      else (NextAttempt, backoff attempt st1))
                 | AuthRaises net \<Rightarrow> handle_other attempt max_retries net st1))
      else transfer attempt max_retries st)"

fun attempts :: "nat list \<Rightarrow> nat \<Rightarrow> upload_state \<Rightarrow> upload_result \<times> upload_state" where
  "attempts [] max_retries st = (UploadFailed UnknownReason, st)"
| "attempts (attempt # later) max_retries st =
     (case attempt_body attempt max_retries st of
        (Return r, st') \<Rightarrow> (r, st')
      | (NextAttempt, st') \<Rightarrow> attempts later max_retries st')"

definition upload_with_progress ::
  "bool \<Rightarrow> nat \<Rightarrow> nat \<Rightarrow> upload_state \<Rightarrow> upload_result \<times> upload_state" where
  "upload_with_progress file_exists file_size max_retries st =
     (if \<not> file_exists then (UploadFailed FileMissingError, st)
      else if file_size = 0 then (UploadFailed EmptyFileError, st)
      else attempts [0..<max_retries] max_retries st)"

text \<open>The percent values passed to the progress callback, in order.\<close>

fun reported :: "upload_event list \<Rightarrow> int list" where
  "reported [] = []"
| "reported (Progress p # es) = p # reported es"
| "reported (e # es) = reported es"

fun chunk_backoffs :: "upload_event list \<Rightarrow> nat list" where
  "chunk_backoffs [] = []"
| "chunk_backoffs (ChunkBackoff n # es) = n # chunk_backoffs es"
| "chunk_backoffs (e # es) = chunk_backoffs es"

text \<open>A status whose percent value lies between 0 and 100.\<close>

fun percent_in_range :: "chunk_outcome \<Rightarrow> bool" where
  "percent_in_range (Chunk (Some (progress, elapsed_time)) response) =
     (0 \<le> progress \<and> progress \<le> 100)"
| "percent_in_range c = True"

text \<open>
  Properties of a trace of events. \<open>restarts_increasing lp es\<close>: every percent value in
  \<open>es\<close> is greater than the one reported before it since the latest new request (\<open>lp\<close>
  before the first event), and a new request starts again from 0.
  \<open>last_progress_after lp es\<close> is the value of \<open>last_progress\<close> after the events \<open>es\<close>.
\<close>

fun restarts_increasing :: "int \<Rightarrow> upload_event list \<Rightarrow> bool" where
  "restarts_increasing lp [] = True"
| "restarts_increasing lp (NewRequest # es) = restarts_increasing 0 es"
| "restarts_increasing lp (Progress p # es) = (lp < p \<and> restarts_increasing p es)"
| "restarts_increasing lp (e # es) = restarts_increasing lp es"

fun last_progress_after :: "int \<Rightarrow> upload_event list \<Rightarrow> int" where
  "last_progress_after lp [] = lp"
| "last_progress_after lp (NewRequest # es) = last_progress_after 0 es"
| "last_progress_after lp (Progress p # es) = last_progress_after p es"
| "last_progress_after lp (e # es) = last_progress_after lp es"

definition progress_ok :: "upload_state \<Rightarrow> bool" where
  "progress_ok st =
     (restarts_increasing 0 (trace st)
      \<and> list_all (\<lambda>p. 0 < p \<and> p \<le> 100) (reported (trace st))
      \<and> list_all percent_in_range (chunks st))"

section \<open>Concrete inputs\<close>

text \<open>Concrete directories used to run the model: the time is 100000 seconds.\<close>

definition no_faults :: os_faults where
  "no_faults = \<lparr>remove_fails = False, rename_fails = False\<rparr>"

definition example_dir :: listing where
  "example_dir =
     [\<lparr>name = ''old.mkv'', isfile = True, getsize = 83886080, getmtime = 82000\<rparr>,
      \<lparr>name = ''X.mp4'', isfile = True, getsize = 52428800, getmtime = 99940\<rparr>,
      \<lparr>name = ''Y.tmp.part'', isfile = True, getsize = 10485760, getmtime = 99990\<rparr>]"

definition part_only_dir :: listing where
  "part_only_dir =
     [\<lparr>name = ''Y.tmp.part'', isfile = True, getsize = 10485760, getmtime = 99990\<rparr>]"


definition upper_part_dir :: listing where
  "upper_part_dir =
     [\<lparr>name = ''SHOW.MKV.PART'', isfile = True, getsize = 10485760, getmtime = 99990\<rparr>,
      \<lparr>name = ''payload.bin'', isfile = True, getsize = 20000000, getmtime = 99000\<rparr>]"

definition other_dir :: listing where
  "other_dir =
     [\<lparr>name = ''notes.txt'', isfile = True, getsize = 120, getmtime = 99000\<rparr>,
      \<lparr>name = ''payload.bin'', isfile = True, getsize = 20000000, getmtime = 99000\<rparr>]"

text \<open>Concrete inputs for the encoder and for the download loop.\<close>

definition three_submits :: "encoder_event list" where
  "three_submits =
     [Submit 100 (True, True, True) ''alice'',
      Submit 101 (True, True, True) ''bob smith jr'',
      Submit 102 (True, True, True) ''carol'']"

definition same_second_calls :: "(real \<times> (bool \<times> bool \<times> bool) \<times> string) list" where
  "same_second_calls =
     [(100, (True, True, True), ''Unknown''),
      (401 / 4, (True, True, True), ''Unknown''),
      (201 / 2, (True, True, True), ''Unknown''),
      (403 / 4, (True, True, True), ''Unknown'')]"

definition idle_ticks :: "tick list" where
  "idle_ticks =
     map (\<lambda>i. \<lparr>tick_time = 2 + 4 * real i, output_seen = False, polled = StillRunning\<rparr>) [0..<100]"

definition idle_env :: download_env where
  "idle_env = \<lparr>aria2_found = True, spawn_ok = True, ticks = idle_ticks, terminated = Graceful (-15),
     search_time = 100000, faults = no_faults, getsize_raises = False\<rparr>"


definition no_downloads :: download_manager where
  "no_downloads = \<lparr>active_downloads = [], download_calls = []\<rparr>"



text \<open>Concrete scripts for the upload.\<close>

definition retry_state :: upload_state where
  "retry_state =
     \<lparr>service = True, auths = [],
      chunks = [Chunk (Some (50, 10)) None,
                HttpError 503 False, HttpError 503 False, HttpError 503 False,
                HttpError 503 False, HttpError 503 False,
                Chunk (Some (10, 1)) None, Chunk None (Some ''file1'')],
      trace = []\<rparr>"

definition three_failures :: "chunk_outcome list" where
  "three_failures =
     [HttpError 503 False, HttpError 503 False, HttpError 503 False,
      Chunk None (Some ''file1'')]"

definition ten_chunks :: upload_state where
  "ten_chunks =
     \<lparr>service = True, auths = [],
      chunks = [Chunk (Some (10, 1)) None, Chunk (Some (20, 2)) None, Chunk (Some (30, 3)) None,
                HttpError 503 False, HttpError 503 False,
                Chunk (Some (40, 10)) None, Chunk (Some (50, 11)) None,
                Chunk (Some (60, 12)) None, Chunk (Some (70, 13)) None,
                Chunk (Some (80, 14)) None, Chunk (Some (90, 15)) None,
                Chunk None (Some ''file1'')],
      trace = []\<rparr>"

definition expiring_state :: upload_state where
  "expiring_state =
     \<lparr>service = True, auths = [AuthOk, AuthOk],
      chunks = [Chunk (Some (50, 10)) None, HttpError 401 False,
                Chunk (Some (20, 5)) None, HttpError 401 False,
                Chunk None (Some ''file1'')],
      trace = []\<rparr>"

text \<open>The invariant of the encoder's dictionary.\<close>

definition encoder_inv :: "encoder \<Rightarrow> bool" where
  "encoder_inv e = (length (active_encodes e) \<le> max_concurrent_encodes
                     \<and> distinct (map fst (active_encodes e)))"

section \<open>Facts about the scan and the selection\<close>

lemma scan_files_candidates:
  "snd (scan_files t fs) = filter (\<lambda>f. isfile f \<and> is_video (name f)) fs"
  by (induction fs) (auto simp: case_prod_beta Let_def)

lemma scan_files_recent:
  "fst (scan_files t fs) =
     filter (\<lambda>f. isfile f \<and> is_video (name f) \<and> age_hours t f \<le> 3) fs"
  by (induction fs) (auto simp: case_prod_beta Let_def)

lemma candidate_files_eq:
  "candidate_files t fs = filter (\<lambda>f. isfile f \<and> is_video (name f)) fs"
  by (simp add: candidate_files_def scan_files_candidates)

lemma recent_files_eq:
  "recent_files t fs = filter (\<lambda>f. age_hours t f \<le> 3) (candidate_files t fs)"
  by (simp add: recent_files_def scan_files_recent candidate_files_eq conj_commute conj_left_commute)





lemma largest_of_None: "largest_of fs = None \<longleftrightarrow> fs = []"
  by (simp add: largest_of_def split: list.splits)

lemma path_join_inject: "path_join d a = path_join d b \<longleftrightarrow> a = b"
  by (simp add: path_join_def)

lemma is_temp_iff:
  "is_temp n \<longleftrightarrow> py_in ''.aria2'' (lower n) \<or> py_in ''.part'' (lower n)
      \<or> py_in ''.downloading'' (lower n) \<or> py_in ''.tmp'' (lower n)"
  by (simp add: is_temp_def temp_patterns_def replace_star_def)

lemma target_files_Nil_iff:
  "target_files t fs = [] \<longleftrightarrow> (\<forall>f \<in> set fs. \<not> (isfile f \<and> is_video (name f)))"
  by (auto simp: target_files_def recent_files_eq candidate_files_eq filter_empty_conv)

lemma find_Some_holds: "find P xs = Some x \<Longrightarrow> x \<in> set xs \<and> P x"
  by (induction xs) (auto split: if_splits)

lemma example_names:
  "is_video ''old.mkv''" "is_video ''X.mp4''" "\<not> is_video ''Y.tmp.part''" "is_video ''.mp4''"
  "\<not> is_video ''notes.txt''" "\<not> is_video ''payload.bin''" "\<not> is_video ''big.bin''"
  "is_temp ''Y.tmp.part''" "\<not> is_temp ''notes.txt''" "\<not> is_temp ''payload.bin''"
  "splitext_ext ''X.mp4'' = ''.mp4''" "splitext_ext ''.mp4'' = []"
  by (simp_all add: is_video_def video_extensions_def endswith_def lower_def lower_char_def
        is_temp_def temp_patterns_def replace_star_def splitext_ext_def)

lemmas find_unfold = find_downloaded_file_def find_in_listing_def
        target_files_def recent_files_def candidate_files_def age_hours_def largest_of_def
        rename_result_def new_name_for_def os_path_exists_def os_rename_def
        os_remove_def path_join_def temp_files_def desperate_ok_def Let_def

section \<open>find_downloaded_file: the last-resort pick\<close>

text \<open>
  Claim C10, as stated, fails: the name \<open>SHOW.MKV.PART\<close> contains none of the markers,
  which are lower-case, and no file has a video extension, yet the source tests the
  lower-cased name, takes the file for a temporary one and returns \<open>None\<close>, although
  \<open>payload.bin\<close> is a regular file of more than 10 MiB that is less than 2 hours old.
\<close>

theorem upper_case_marker_blocks_pick:
  "\<not> is_video ''SHOW.MKV.PART'' \<and> \<not> is_video ''payload.bin''
   \<and> \<not> py_in ''.aria2'' ''SHOW.MKV.PART'' \<and> \<not> py_in ''.part'' ''SHOW.MKV.PART''
   \<and> \<not> py_in ''.downloading'' ''SHOW.MKV.PART'' \<and> \<not> py_in ''.tmp'' ''SHOW.MKV.PART''
   \<and> \<not> py_in ''.aria2'' ''payload.bin'' \<and> \<not> py_in ''.part'' ''payload.bin''
   \<and> \<not> py_in ''.downloading'' ''payload.bin'' \<and> \<not> py_in ''.tmp'' ''payload.bin''
   \<and> desperate_ok 100000
        \<lparr>name = ''payload.bin'', isfile = True, getsize = 20000000, getmtime = 99000\<rparr>
   \<and> find_downloaded_file no_faults 100000 ''downloads'' (Some upper_part_dir) ''episode''
       = (None, Some upper_part_dir)"
proof -
  have v: "\<not> is_video ''SHOW.MKV.PART''" "\<not> is_video ''payload.bin''"
    by (simp_all add: is_video_def video_extensions_def endswith_def lower_def lower_char_def)
  have t: "is_temp ''SHOW.MKV.PART''"
    by (simp add: is_temp_def temp_patterns_def replace_star_def lower_def lower_char_def)
  have p: "\<not> py_in ''.aria2'' ''SHOW.MKV.PART''" "\<not> py_in ''.part'' ''SHOW.MKV.PART''"
    "\<not> py_in ''.downloading'' ''SHOW.MKV.PART''" "\<not> py_in ''.tmp'' ''SHOW.MKV.PART''"
    "\<not> py_in ''.aria2'' ''payload.bin''" "\<not> py_in ''.part'' ''payload.bin''"
    "\<not> py_in ''.downloading'' ''payload.bin''" "\<not> py_in ''.tmp'' ''payload.bin''"
    by simp_all
  have d: "desperate_ok 100000
        \<lparr>name = ''payload.bin'', isfile = True, getsize = 20000000, getmtime = 99000\<rparr>"
    by (simp add: desperate_ok_def age_hours_def)
  have r: "find_downloaded_file no_faults 100000 ''downloads'' (Some upper_part_dir) ''episode''
       = (None, Some upper_part_dir)"
    by (simp add: find_unfold upper_part_dir_def v t)
  from v p d r show ?thesis by (intro conjI)
qed

text \<open>
  Claim C10, amended. When the directory holds no regular file with a video extension and no
  entry (file or directory) whose lower-cased name contains one of the markers \<open>.aria2\<close>, \<open>.part\<close>,
  \<open>.downloading\<close>, \<open>.tmp\<close>, then \<open>find_downloaded_file\<close> returns a regular file of more
  than 10 MiB that is at most 2 hours old whenever the directory has one, whatever its
  extension and whatever \<open>custom_name\<close> is, and returns \<open>None\<close> only when there is no such
  file. The directory is left as it was.
\<close>

theorem desperate_mode_pick:
  assumes novid: "\<forall>f \<in> set all_files. \<not> (isfile f \<and> is_video (name f))"
      and notemp: "\<forall>f \<in> set all_files. \<forall>m \<in> set [''.aria2'', ''.part'', ''.downloading'', ''.tmp''].
                     \<not> py_in m (lower (name f))"
  shows "((\<exists>f \<in> set all_files. isfile f \<and> 10 * 1024 * 1024 < getsize f \<and> age_hours t f \<le> 2) \<longrightarrow>
            (\<exists>f \<in> set all_files. isfile f \<and> 10 * 1024 * 1024 < getsize f \<and> age_hours t f \<le> 2 \<and>
               find_downloaded_file flt t d (Some all_files) custom_name
                 = (Some (path_join d (name f)), Some all_files)))
       \<and> (\<not> (\<exists>f \<in> set all_files. isfile f \<and> 10 * 1024 * 1024 < getsize f \<and> age_hours t f \<le> 2) \<longrightarrow>
            find_downloaded_file flt t d (Some all_files) custom_name = (None, Some all_files))"
proof -
  have tg: "largest_of (target_files t all_files) = None"
    using novid by (simp add: largest_of_None target_files_Nil_iff)
  have tmp: "temp_files all_files = []"
    using notemp by (simp add: temp_files_def filter_empty_conv is_temp_iff)
  have eq: "find_downloaded_file flt t d (Some all_files) custom_name =
      (case find (desperate_ok t) all_files of
         Some f \<Rightarrow> (Some (path_join d (name f)), Some all_files)
       | None \<Rightarrow> (None, Some all_files))"
    by (simp add: find_downloaded_file_def find_in_listing_def tg tmp split: option.splits)
  show ?thesis
  proof (cases "find (desperate_ok t) all_files")
    case None
    then have "\<forall>f \<in> set all_files. \<not> desperate_ok t f"
      by (simp add: find_None_iff)
    then show ?thesis using eq None by (auto simp: desperate_ok_def)
  next
    case (Some f)
    then have "f \<in> set all_files \<and> desperate_ok t f" by (rule find_Some_holds)
    then show ?thesis using eq Some by (auto simp: desperate_ok_def)
  qed
qed

theorem desperate_mode_pick_witness:
  "find_downloaded_file no_faults 100000 ''downloads'' (Some other_dir) ''episode''
     = (Some ''downloads/payload.bin'', Some other_dir)"
proof -
  have h1: "\<forall>f \<in> set other_dir. \<not> (isfile f \<and> is_video (name f))"
    by (simp add: other_dir_def example_names)
  have h2: "\<forall>f \<in> set other_dir. \<forall>m \<in> set [''.aria2'', ''.part'', ''.downloading'', ''.tmp''].
              \<not> py_in m (lower (name f))"
    using example_names by (simp add: other_dir_def is_temp_iff)
  show ?thesis
    using desperate_mode_pick [OF h1 h2, of 100000 no_faults "''downloads''" "''episode''"]
    by (simp add: other_dir_def age_hours_def path_join_def)
qed




section \<open>find_downloaded_file: the selection\<close>



section \<open>find_downloaded_file: temporary files\<close>

text \<open>
  Claim C6, as stated, fails: a directory that holds only a \<open>.part\<close> file and an empty
  directory give the same return value, \<open>None\<close>; the source only logs the difference.
\<close>

theorem in_progress_same_as_not_found:
  "find_downloaded_file no_faults 100000 ''downloads'' (Some part_only_dir) ''episode''
     = (None, Some part_only_dir)
   \<and> find_downloaded_file no_faults 100000 ''downloads'' (Some []) ''episode'' = (None, Some [])"
  by (simp add: find_unfold part_only_dir_def example_names)

text \<open>
  Claim C6, amended. When the directory holds no regular file with a video extension but
  has an entry whose lower-cased name contains one of the markers \<open>.aria2\<close>, \<open>.part\<close>,
  \<open>.downloading\<close>, \<open>.tmp\<close>, \<open>find_downloaded_file\<close> returns \<open>None\<close>, the value it also
  returns for an empty directory, and leaves the directory as it was; the last-resort
  pick is not tried.
\<close>

theorem in_progress_returns_none:
  assumes novid: "\<forall>f \<in> set all_files. \<not> (isfile f \<and> is_video (name f))"
      and tmp: "\<exists>f \<in> set all_files. \<exists>m \<in> set [''.aria2'', ''.part'', ''.downloading'', ''.tmp''].
                  py_in m (lower (name f))"
  shows "find_downloaded_file flt t d (Some all_files) custom_name = (None, Some all_files)
       \<and> fst (find_downloaded_file flt t d (Some all_files) custom_name)
           = fst (find_downloaded_file flt t d (Some []) custom_name)"
proof -
  have tg: "largest_of (target_files t all_files) = None"
    using novid by (simp add: largest_of_None target_files_Nil_iff)
  have "temp_files all_files \<noteq> []"
    using tmp by (auto simp: temp_files_def filter_empty_conv is_temp_iff)
  then have a: "find_downloaded_file flt t d (Some all_files) custom_name = (None, Some all_files)"
    by (simp add: find_downloaded_file_def find_in_listing_def tg)
  have b: "find_downloaded_file flt t d (Some []) custom_name = (None, Some [])"
    by (simp add: find_unfold)
  show ?thesis using a b by simp
qed

theorem in_progress_returns_none_witness:
  "find_downloaded_file no_faults 100000 ''downloads''
     (Some (\<lparr>name = ''big.bin'', isfile = True, getsize = 83886080, getmtime = 99000\<rparr> # part_only_dir))
     ''episode''
   = (None, Some (\<lparr>name = ''big.bin'', isfile = True, getsize = 83886080, getmtime = 99000\<rparr> # part_only_dir))"
proof -
  have h1: "\<forall>f \<in> set (\<lparr>name = ''big.bin'', isfile = True, getsize = 83886080, getmtime = 99000\<rparr> # part_only_dir).
              \<not> (isfile f \<and> is_video (name f))"
    by (simp add: part_only_dir_def example_names)
  have h2: "\<exists>f \<in> set (\<lparr>name = ''big.bin'', isfile = True, getsize = 83886080, getmtime = 99000\<rparr> # part_only_dir).
              \<exists>m \<in> set [''.aria2'', ''.part'', ''.downloading'', ''.tmp'']. py_in m (lower (name f))"
    using example_names by (simp add: part_only_dir_def is_temp_iff)
  from in_progress_returns_none [OF h1 h2] show ?thesis by simp
qed

section \<open>find_downloaded_file: renaming\<close>




lemma length_alist_delete_le: "length (AList.delete k al) \<le> length al"
  by (rule AList.length_delete_le)

lemma length_map_entry: "length (AList.map_entry k f al) = length al"
  by (induction al) auto

lemma length_update_le: "length (AList.update k v al) \<le> Suc (length al)"
  by (induction al) auto

lemma distinct_map_entry: "map fst (AList.map_entry k f al) = map fst al"
  by (induction al) auto

lemma encoder_step_inv: "encoder_inv e \<Longrightarrow> encoder_inv (encoder_step e ev)"
proof (cases ev)
  case (Submit t ex u)
  assume inv: "encoder_inv e"
  show ?thesis
  proof (cases "can_start_new_encode e")
    case False
    then show ?thesis using inv Submit by (simp add: encode_single_pass_begin_def)
  next
    case True
    then have "length (active_encodes e) < max_concurrent_encodes"
      by (simp add: can_start_new_encode_def)
    then have "length (AList.update k v (active_encodes e)) \<le> max_concurrent_encodes" for k v
      using length_update_le [of k v "active_encodes e"] by simp
    then show ?thesis using inv Submit True
      by (auto simp: encode_single_pass_begin_def encoder_inv_def add_active_encode_def
            AList.distinct_update split: option.splits)
  qed
next
  case (Finish i task)
  assume inv: "encoder_inv e"
  have "length (AList.delete i (active_encodes e)) \<le> max_concurrent_encodes"
    using length_alist_delete_le [of i "active_encodes e"] inv by (simp add: encoder_inv_def)
  then show ?thesis using inv Finish
    by (auto simp: encode_single_pass_end_def encoder_inv_def remove_active_encode_def
          AList.distinct_delete split: outcome.splits)
next
  case (Stop i)
  assume inv: "encoder_inv e"
  then show ?thesis using Stop
    by (simp add: stop_encode_def encoder_inv_def length_map_entry distinct_map_entry)
next
  case Cleanup
  then show ?thesis by (simp add: cleanup_all_processes_def encoder_inv_def)
qed

lemma foldl_encoder_inv: "encoder_inv e \<Longrightarrow> encoder_inv (foldl encoder_step e evs)"
  by (induction evs arbitrary: e) (simp_all add: encoder_step_inv)

lemma encoder_run_inv: "encoder_inv (encoder_run evs)"
  unfolding encoder_run_def
  by (rule foldl_encoder_inv) (simp add: encoder_inv_def encoder_init_def)

section \<open>The encoder's concurrency limit\<close>

text \<open>
  What holds of the dictionary: after any sequence of submissions, finished encodes, stop
  requests and clean-ups, run one event-loop step at a time from the empty encoder, it
  has at most \<open>max_concurrent_encodes = 3\<close> entries; and a submission made while it has 3
  entries returns at once with the rejection that reports 3 of 3, and leaves it as it
  was.
\<close>

theorem encode_admission_bounded:
  "get_active_encode_count (encoder_run evs) \<le> max_concurrent_encodes
   \<and> max_concurrent_encodes = 3
   \<and> distinct (map fst (active_encodes (encoder_run evs)))
   \<and> (get_active_encode_count (encoder_run evs) = 3 \<longrightarrow>
        encode_single_pass_begin (encoder_run evs) time_now exist user_info
          = (EncodeLimit 3 3, encoder_run evs))"
  using encoder_run_inv [of evs]
  by (simp add: encoder_inv_def get_active_encode_count_def encode_single_pass_begin_def
        can_start_new_encode_def max_concurrent_encodes_def)

lemma three_submits_run:
  "encoder_run three_submits =
     \<lparr>active_encodes =
        [((100, ''alice''), \<lparr>enc_user = ''alice'', enc_start_time = 100, enc_status = ''running''\<rparr>),
         ((101, ''bob_smit''), \<lparr>enc_user = ''bob smith jr'', enc_start_time = 101, enc_status = ''running''\<rparr>),
         ((102, ''carol''), \<lparr>enc_user = ''carol'', enc_start_time = 102, enc_status = ''running''\<rparr>)],
      removed_encodes = []\<rparr>"
  by (simp add: encoder_run_def three_submits_def encoder_init_def encode_single_pass_begin_def
        can_start_new_encode_def max_concurrent_encodes_def files_to_check_def
        add_active_encode_def make_encode_id_def py_int_def)

theorem encode_admission_bounded_witness:
  "get_active_encode_count (encoder_run three_submits) = 3
   \<and> encode_single_pass_begin (encoder_run three_submits) 103 (True, True, True) ''dave''
       = (EncodeLimit 3 3, encoder_run three_submits)"
proof -
  have h: "get_active_encode_count (encoder_run three_submits) = 3"
    by (simp add: three_submits_run get_active_encode_count_def)
  show ?thesis
    using h encode_admission_bounded [of three_submits 103 "(True, True, True)" "''dave''"]
    by simp
qed

lemma same_second_ids:
  "py_int 100 = 100" "py_int (401 / 4) = 100" "py_int (201 / 2) = 100" "py_int (403 / 4) = 100"
  by (simp_all add: py_int_def)

text \<open>
  Claim C1 at a failing input: four calls of \<open>encode_single_pass\<close> in the same second
  with the user text \<open>Unknown\<close> (the default, which the bot never overrides), none of the
  encodes finishing in between. The key is made of the second and the user text, so all
  four calls write the same entry: the dictionary has one entry after each of them, the
  capacity check never fails, and the fourth call, made while three encodes are active,
  is admitted and registered instead of rejected.
\<close>

theorem same_second_calls_all_admitted:
  "fst (submissions encoder_init same_second_calls)
     = [Admitted (100, ''Unknown''), Admitted (100, ''Unknown''),
        Admitted (100, ''Unknown''), Admitted (100, ''Unknown'')]
   \<and> get_active_encode_count (snd (submissions encoder_init same_second_calls)) = 1
   \<and> length (fst (submissions encoder_init same_second_calls)) = 4
   \<and> max_concurrent_encodes = 3"
  by (simp add: same_second_calls_def encoder_init_def encode_single_pass_begin_def
        can_start_new_encode_def max_concurrent_encodes_def files_to_check_def
        add_active_encode_def make_encode_id_def same_second_ids get_active_encode_count_def)

section \<open>The download loop's time limits\<close>

lemma monitor_keeps_running:
  "list_all (\<lambda>tk. polled tk = StillRunning \<and> tick_time tk - s \<le> max_total_time) tks
     \<Longrightarrow> monitor s l tks = StillMonitoring"
  by (induction tks arbitrary: l) auto

lemma monitor_ignores_output:
  "monitor s l (map (\<lambda>tk. tk\<lparr>output_seen := b\<rparr>) tks) = monitor s l tks"
  by (induction tks arbitrary: l) (auto split: poll.splits)

text \<open>
  Claim C2 at a failing input: a fetch process that runs for 398 seconds and writes no
  output in any of the 100 iterations is still being monitored at the end; the loop
  never reads \<open>max_idle_time\<close>, and the download has not returned.
\<close>

theorem idle_download_not_terminated:
  "list_all (\<lambda>tk. \<not> output_seen tk) idle_ticks
   \<and> tick_time (last idle_ticks) - tick_time (hd idle_ticks) > max_idle_time
   \<and> monitor 0 0 idle_ticks = StillMonitoring
   \<and> download_magnet_fast idle_env no_downloads ''AB12CD34'' 0 ''episode'' ''downloads''
       (Some example_dir) = None"
proof -
  have a: "list_all (\<lambda>tk. \<not> output_seen tk) idle_ticks"
    by (simp add: idle_ticks_def list_all_iff)
  have b: "tick_time (last idle_ticks) - tick_time (hd idle_ticks) > max_idle_time"
    by (simp add: idle_ticks_def last_map hd_map max_idle_time_def upt_rec [of 0 100])
  have "list_all (\<lambda>tk. polled tk = StillRunning \<and> tick_time tk - 0 \<le> max_total_time) idle_ticks"
    by (auto simp: idle_ticks_def list_all_iff max_total_time_def)
  then have c: "monitor 0 0 idle_ticks = StillMonitoring" by (rule monitor_keeps_running)
  have d: "download_magnet_fast idle_env no_downloads ''AB12CD34'' 0 ''episode'' ''downloads''
       (Some example_dir) = None"
    by (simp add: download_magnet_fast_def idle_env_def c Let_def)
  from a b c d show ?thesis by (intro conjI)
qed



section \<open>Removal from the tracking registries\<close>



text \<open>
  When the encoding task raises instead, \<open>encode_single_pass\<close> propagates the exception
  and the encoder is left as it was, with the entry still in \<open>active_encodes\<close>.
\<close>

lemma encode_exception_keeps_entry:
  "encode_single_pass_end e eid Raises = (Propagated, e)"
  by (simp add: encode_single_pass_end_def)




section \<open>Facts about the upload loop\<close>

lemmas upload_unfold = upload_with_progress_def attempt_body_def transfer_def handle_http_def
  handle_other_def backoff_def on_status_def emit_def Let_def

lemma range_3: "[0..<3] = [0, 1, 2]"
  by (simp add: upt_conv_Cons)

lemma reported_append: "reported (xs @ ys) = reported xs @ reported ys"
  by (induction xs rule: reported.induct) auto

lemma events_emit: "snd (snd (emit evs r)) = evs @ snd (snd r)"
  by (simp add: emit_def split: prod.splits)

lemma rest_emit: "fst (snd (emit evs r)) = fst (snd r)"
  by (simp add: emit_def split: prod.splits)

lemma restarts_increasing_append:
  "restarts_increasing lp (xs @ ys)
     = (restarts_increasing lp xs \<and> restarts_increasing (last_progress_after lp xs) ys)"
  by (induction lp xs rule: restarts_increasing.induct) auto

lemma on_status_increasing:
  assumes "on_status lp sc status = (evs, lp', sc', rc')"
  shows "restarts_increasing lp evs \<and> last_progress_after lp evs = lp'"
  using assms by (auto simp: on_status_def split: option.splits if_splits)

lemma chunk_loop_increasing:
  "restarts_increasing lp (snd (snd (chunk_loop lp sc rc script)))"
proof (induction lp sc rc script rule: chunk_loop.induct)
  case (1 lp sc rc)
  show ?case by simp
next
  case (2 lp sc rc status response rest)
  obtain evs lp' sc' rc' where os: "on_status lp sc status = (evs, lp', sc', rc')"
    by (cases "on_status lp sc status") auto
  let ?tail = "(case response of
               None \<Rightarrow> chunk_loop lp' sc' rc' rest
             | Some file_id \<Rightarrow> (Responded file_id, rest, []))"
  have ev: "snd (snd (chunk_loop lp sc rc (Chunk status response # rest)))
              = evs @ snd (snd ?tail)"
    by (simp add: os events_emit)
  have tl: "restarts_increasing lp' (snd (snd ?tail))"
  proof (cases response)
    case None
    then show ?thesis using "2.IH" [OF os [symmetric] refl refl None] by simp
  next
    case (Some fid)
    then show ?thesis by simp
  qed
  have goal: "restarts_increasing lp (evs @ snd (snd ?tail))"
    using on_status_increasing [OF os] tl by (simp add: restarts_increasing_append)
  show ?case unfolding ev by (rule goal)
next
  case (3 lp sc rc status q rest)
  then show ?case by (simp add: events_emit)
next
  case (4 lp sc rc net rest)
  then show ?case by (simp add: events_emit)
qed

lemma chunk_loop_rest:
  "list_all P script \<Longrightarrow> list_all P (fst (snd (chunk_loop lp sc rc script)))"
proof (induction lp sc rc script rule: chunk_loop.induct)
  case (1 lp sc rc)
  show ?case by simp
next
  case (2 lp sc rc status response rest)
  obtain evs lp' sc' rc' where os: "on_status lp sc status = (evs, lp', sc', rc')"
    by (cases "on_status lp sc status") auto
  let ?tail = "(case response of
               None \<Rightarrow> chunk_loop lp' sc' rc' rest
             | Some file_id \<Rightarrow> (Responded file_id, rest, []))"
  have ev: "fst (snd (chunk_loop lp sc rc (Chunk status response # rest))) = fst (snd ?tail)"
    by (simp add: os rest_emit)
  have rest: "list_all P rest" using "2.prems" by simp
  have goal: "list_all P (fst (snd ?tail))"
  proof (cases response)
    case None
    then show ?thesis using "2.IH" [OF os [symmetric] refl refl None rest] by simp
  next
    case (Some fid)
    then show ?thesis using rest by simp
  qed
  show ?case unfolding ev by (rule goal)
next
  case (3 lp sc rc status q rest)
  then show ?case by (simp add: rest_emit)
next
  case (4 lp sc rc net rest)
  then show ?case by (simp add: rest_emit)
qed

lemma on_status_reported:
  assumes "on_status lp sc status = (evs, lp', sc', rc')"
  shows "(reported evs = [] \<and> lp' = lp) \<or> (reported evs = [lp'] \<and> lp < lp')"
  using assms by (auto simp: on_status_def split: option.splits if_splits)

lemma on_status_in_range:
  assumes "on_status lp sc status = (evs, lp', sc', rc')"
      and "percent_in_range (Chunk status response)"
  shows "\<forall>p \<in> set (reported evs). p \<le> 100"
  using assms by (auto simp: on_status_def split: option.splits if_splits)

lemma chunk_loop_reported:
  "sorted_wrt (<) (reported (snd (snd (chunk_loop lp sc rc script))))
   \<and> (\<forall>p \<in> set (reported (snd (snd (chunk_loop lp sc rc script)))). lp < p)"
proof (induction lp sc rc script rule: chunk_loop.induct)
  case (1 lp sc rc)
  show ?case by simp
next
  case (2 lp sc rc status response rest)
  obtain evs lp' sc' rc' where os: "on_status lp sc status = (evs, lp', sc', rc')"
    by (cases "on_status lp sc status") auto
  let ?tail = "(case response of
               None \<Rightarrow> chunk_loop lp' sc' rc' rest
             | Some file_id \<Rightarrow> (Responded file_id, rest, []))"
  have ev: "snd (snd (chunk_loop lp sc rc (Chunk status response # rest)))
              = evs @ snd (snd ?tail)"
    by (simp add: os events_emit)
  have tl: "sorted_wrt (<) (reported (snd (snd ?tail)))
            \<and> (\<forall>p \<in> set (reported (snd (snd ?tail))). lp' < p)"
  proof (cases response)
    case None
    then show ?thesis using "2.IH" [OF os [symmetric] refl refl None] by simp
  next
    case (Some fid)
    then show ?thesis by simp
  qed
  have goal: "sorted_wrt (<) (reported (evs @ snd (snd ?tail)))
              \<and> (\<forall>p \<in> set (reported (evs @ snd (snd ?tail))). lp < p)"
    using on_status_reported [OF os] tl by (auto simp: reported_append)
  show ?case unfolding ev by (rule goal)
next
  case (3 lp sc rc status q rest)
  then show ?case by (simp add: events_emit reported_append)
next
  case (4 lp sc rc net rest)
  then show ?case by (simp add: events_emit reported_append)
qed


lemma chunk_loop_in_range:
  "list_all percent_in_range script \<Longrightarrow>
     \<forall>p \<in> set (reported (snd (snd (chunk_loop lp sc rc script)))). p \<le> 100"
proof (induction lp sc rc script rule: chunk_loop.induct)
  case (1 lp sc rc)
  show ?case by simp
next
  case (2 lp sc rc status response rest)
  obtain evs lp' sc' rc' where os: "on_status lp sc status = (evs, lp', sc', rc')"
    by (cases "on_status lp sc status") auto
  let ?tail = "(case response of
               None \<Rightarrow> chunk_loop lp' sc' rc' rest
             | Some file_id \<Rightarrow> (Responded file_id, rest, []))"
  have ev: "snd (snd (chunk_loop lp sc rc (Chunk status response # rest)))
              = evs @ snd (snd ?tail)"
    by (simp add: os events_emit)
  have rng: "percent_in_range (Chunk status response)" and rest: "list_all percent_in_range rest"
    using "2.prems" by simp_all
  have tl: "\<forall>p \<in> set (reported (snd (snd ?tail))). p \<le> 100"
  proof (cases response)
    case None
    then show ?thesis using "2.IH" [OF os [symmetric] refl refl None rest] by simp
  next
    case (Some fid)
    then show ?thesis by simp
  qed
  have goal: "\<forall>p \<in> set (reported (evs @ snd (snd ?tail))). p \<le> 100"
    using on_status_in_range [OF os rng] tl by (auto simp: reported_append)
  show ?case unfolding ev by (rule goal)
next
  case (3 lp sc rc status q rest)
  then show ?case by (simp add: events_emit reported_append)
next
  case (4 lp sc rc net rest)
  then show ?case by (simp add: events_emit reported_append)
qed

lemma progress_ok_backoff: "progress_ok (backoff a st) = progress_ok st"
  by (simp add: progress_ok_def backoff_def restarts_increasing_append reported_append)

lemma progress_ok_service: "progress_ok (st\<lparr>service := b\<rparr>) = progress_ok st"
  by (simp add: progress_ok_def)

lemma handle_other_progress_ok:
  "progress_ok st \<Longrightarrow> progress_ok (snd (handle_other a m net st))"
  by (simp add: handle_other_def progress_ok_backoff)

lemma handle_http_progress_ok:
  "progress_ok st \<Longrightarrow> progress_ok (snd (handle_http a m status q st))"
  by (simp add: handle_http_def progress_ok_backoff progress_ok_service)

lemma transfer_progress_ok:
  assumes ok: "progress_ok st"
  shows "progress_ok (snd (transfer a m st))"
proof -
  obtain res rest evs where cl: "chunk_loop 0 0 0 (chunks st) = (res, rest, evs)"
    by (cases "chunk_loop 0 0 0 (chunks st)") auto
  have inr: "list_all percent_in_range (chunks st)" using ok by (simp add: progress_ok_def)
  have ri: "restarts_increasing 0 evs"
    using chunk_loop_increasing [of 0 0 0 "chunks st"] by (simp add: cl)
  have pos: "\<forall>p \<in> set (reported evs). 0 < p"
    using chunk_loop_reported [of 0 0 0 "chunks st"] by (simp add: cl)
  have le: "\<forall>p \<in> set (reported evs). p \<le> 100"
    using chunk_loop_in_range [OF inr, of 0 0 0] by (simp add: cl)
  have rest: "list_all percent_in_range rest"
    using chunk_loop_rest [OF inr, of 0 0 0] by (simp add: cl)
  let ?st2 = "st\<lparr>chunks := rest, trace := trace st @ [NewRequest] @ evs\<rparr>"
  have ok2: "progress_ok ?st2"
    using ok ri pos le rest
    by (auto simp: progress_ok_def restarts_increasing_append reported_append list_all_iff)
  show ?thesis
  proof (cases res)
    case (Responded fid)
    then show ?thesis
      using ok2 handle_other_progress_ok [OF ok2, of a m False]
      by (simp add: transfer_def cl Let_def)
  next
    case (RaisedHttp status q)
    then show ?thesis
      using handle_http_progress_ok [OF ok2, of a m status q] by (simp add: transfer_def cl Let_def)
  next
    case (RaisedOther net)
    then show ?thesis
      using handle_other_progress_ok [OF ok2, of a m net] by (simp add: transfer_def cl Let_def)
  next
    case OutOfChunks
    then show ?thesis using ok2 by (simp add: transfer_def cl Let_def)
  qed
qed

lemma progress_ok_authenticate:
  "progress_ok st \<Longrightarrow> progress_ok (st\<lparr>auths := l, trace := trace st @ [Authenticate]\<rparr>)"
  by (simp add: progress_ok_def restarts_increasing_append reported_append)

lemma attempt_body_progress_ok:
  assumes ok: "progress_ok st"
  shows "progress_ok (snd (attempt_body a m st))"
proof (cases "service st")
  case True
  then show ?thesis using transfer_progress_ok [OF ok] by (simp add: attempt_body_def)
next
  case False
  show ?thesis
  proof (cases "auths st")
    case Nil
    then show ?thesis using False ok by (simp add: attempt_body_def)
  next
    case (Cons au l)
    let ?st1 = "st\<lparr>auths := l, trace := trace st @ [Authenticate]\<rparr>"
    have ok1: "progress_ok ?st1" using ok by (rule progress_ok_authenticate)
    have ok1': "progress_ok (?st1\<lparr>service := True\<rparr>)"
      using ok1 by (simp only: progress_ok_service)
    show ?thesis
    proof (cases au)
      case AuthOk
      then show ?thesis
        using False Cons transfer_progress_ok [OF ok1', of a m] by (simp add: attempt_body_def Let_def)
    next
      case AuthFails
      then show ?thesis
        using False Cons ok1 by (simp add: attempt_body_def progress_ok_backoff Let_def)
    next
      case (AuthRaises net)
      then show ?thesis
        using False Cons handle_other_progress_ok [OF ok1, of a m net]
        by (simp add: attempt_body_def Let_def)
    qed
  qed
qed

lemma attempts_progress_ok:
  "progress_ok st \<Longrightarrow> progress_ok (snd (attempts as m st))"
proof (induction as arbitrary: st)
  case Nil
  then show ?case by simp
next
  case (Cons a as)
  obtain r st' where ab: "attempt_body a m st = (r, st')" by (cases "attempt_body a m st") auto
  have ok': "progress_ok st'" using attempt_body_progress_ok [OF Cons.prems, of a m] by (simp add: ab)
  show ?case
  proof (cases r)
    case (Return res)
    then show ?thesis using ok' by (simp add: ab)
  next
    case NextAttempt
    then show ?thesis using Cons.IH [OF ok'] by (simp add: ab)
  qed
qed

section \<open>Progress events of an upload\<close>

text \<open>
  Claim C4, as stated, fails: the first attempt reports 50 percent, the chunk then fails
  five times in a row with status 503, the second attempt starts the transfer again and
  reports 10 percent; the upload succeeds and its callback has seen 50 and then 10.
\<close>

theorem progress_restarts_after_retry:
  "fst (upload_with_progress True 1000 3 retry_state) = UploadOk ''file1''
   \<and> reported (trace (snd (upload_with_progress True 1000 3 retry_state))) = [50, 10]"
  by (simp add: upload_unfold retry_state_def range_3)

text \<open>
  Claim C4, amended. Within one attempt of \<open>upload_with_progress\<close> the percent values
  passed to the progress callback are strictly increasing: a value is passed on only when
  it exceeds the one passed before (0 at the start of the attempt); every new attempt
  starts the transfer again from 0, so over a whole upload the values increase between
  two new requests. When every status of the client has a percent value between 0 and
  100, every reported value lies in that range (and is positive).
\<close>

theorem progress_increases_within_attempt:
  assumes rng: "list_all percent_in_range (chunks st)"
      and fresh: "trace st = []"
  shows "restarts_increasing 0 (trace (snd (upload_with_progress file_exists file_size max_retries st)))
       \<and> list_all (\<lambda>p. 0 < p \<and> p \<le> 100)
           (reported (trace (snd (upload_with_progress file_exists file_size max_retries st))))
       \<and> sorted_wrt (<) (reported (snd (snd (chunk_loop last_progress stall_count retry_chunk_count (chunks st)))))
       \<and> list_all (\<lambda>p. last_progress < p)
           (reported (snd (snd (chunk_loop last_progress stall_count retry_chunk_count (chunks st)))))"
proof -
  have ok: "progress_ok st" using rng fresh by (simp add: progress_ok_def)
  have "progress_ok (snd (upload_with_progress file_exists file_size max_retries st))"
    using ok attempts_progress_ok [OF ok] by (simp add: upload_with_progress_def)
  then have a: "restarts_increasing 0 (trace (snd (upload_with_progress file_exists file_size max_retries st)))"
    and b: "list_all (\<lambda>p. 0 < p \<and> p \<le> 100)
           (reported (trace (snd (upload_with_progress file_exists file_size max_retries st))))"
    by (simp_all add: progress_ok_def)
  have c: "sorted_wrt (<) (reported (snd (snd (chunk_loop last_progress stall_count retry_chunk_count (chunks st)))))"
    and d: "list_all (\<lambda>p. last_progress < p)
           (reported (snd (snd (chunk_loop last_progress stall_count retry_chunk_count (chunks st)))))"
    using chunk_loop_reported [of last_progress stall_count retry_chunk_count "chunks st"]
    by (simp_all add: list_all_iff)
  from a b c d show ?thesis by (intro conjI)
qed

theorem progress_increases_within_attempt_witness:
  "list_all percent_in_range (chunks retry_state) \<and> trace retry_state = []
   \<and> trace (snd (upload_with_progress True 1000 3 retry_state))
       = [NewRequest, Progress 50, Pace, ChunkBackoff 2, ChunkBackoff 4, ChunkBackoff 6,
          ChunkBackoff 8, AttemptBackoff 1, NewRequest, Progress 10, Pace]
   \<and> restarts_increasing 0 (trace (snd (upload_with_progress True 1000 3 retry_state)))"
proof -
  have h1: "list_all percent_in_range (chunks retry_state)" by (simp add: retry_state_def)
  have h2: "trace retry_state = []" by (simp add: retry_state_def)
  have run: "trace (snd (upload_with_progress True 1000 3 retry_state))
       = [NewRequest, Progress 50, Pace, ChunkBackoff 2, ChunkBackoff 4, ChunkBackoff 6,
          ChunkBackoff 8, AttemptBackoff 1, NewRequest, Progress 10, Pace]"
    by (simp add: upload_unfold retry_state_def range_3)
  show ?thesis
    using h1 h2 run progress_increases_within_attempt [OF h1 h2, of True 1000 3 0 0 0]
    by simp
qed

section \<open>Retrying a chunk after a server error\<close>

lemma emit_emit: "emit xs (emit ys r) = emit (xs @ ys) r"
  by (simp add: emit_def split: prod.splits)

lemma emit_Nil: "emit [] r = r"
  by (simp add: emit_def split: prod.splits)

lemma server_error_retries:
  assumes "status \<in> set [500, 502, 503, 504]"
  shows "rc + k < 5 \<Longrightarrow>
     chunk_loop lp sc rc (replicate k (HttpError status q) @ rest)
       = emit (map (\<lambda>n. ChunkBackoff (2 * n)) [rc + 1 ..< rc + k + 1])
           (chunk_loop lp sc (rc + k) rest)"
proof (induction k arbitrary: rc)
  case 0
  show ?case by (simp add: emit_Nil)
next
  case (Suc k)
  have small: "rc + 1 < 5" and m: "min ((rc + 1) * 2) 10 = 2 * (rc + 1)"
    using Suc.prems by simp_all
  have step: "chunk_loop lp sc rc (HttpError status q # replicate k (HttpError status q) @ rest)
      = emit [ChunkBackoff (2 * (rc + 1))]
          (chunk_loop lp sc (rc + 1) (replicate k (HttpError status q) @ rest))"
    using assms small m by (simp add: mult.commute)
  have ih: "chunk_loop lp sc (rc + 1) (replicate k (HttpError status q) @ rest)
      = emit (map (\<lambda>n. ChunkBackoff (2 * n)) [rc + 1 + 1 ..< rc + 1 + k + 1])
           (chunk_loop lp sc (rc + 1 + k) rest)"
    using Suc.IH [of "rc + 1"] Suc.prems by simp
  have up: "[rc + 1 ..< rc + Suc k + 1] = (rc + 1) # [rc + 1 + 1 ..< rc + 1 + k + 1]"
    by (simp add: upt_conv_Cons)
  show ?case
    unfolding up using step ih by (simp add: emit_emit)
qed

lemma five_server_errors:
  assumes "status \<in> set [500, 502, 503, 504]"
  shows "chunk_loop lp sc 0 (replicate 5 (HttpError status q) @ rest)
           = (RaisedHttp status q, rest,
              [ChunkBackoff 2, ChunkBackoff 4, ChunkBackoff 6, ChunkBackoff 8])"
proof -
  have split: "replicate 5 (HttpError status q) @ rest
                 = replicate 4 (HttpError status q) @ (HttpError status q # rest)"
    by (simp add: numeral_eq_Suc)
  have l4: "[0 + 1 ..< 0 + 4 + 1] = [1, 2, 3, 4::nat]"
    by (simp add: upt_conv_Cons)
  have "chunk_loop lp sc 0 (replicate 4 (HttpError status q) @ (HttpError status q # rest))
          = emit (map (\<lambda>n. ChunkBackoff (2 * n)) [0 + 1 ..< 0 + 4 + 1])
              (chunk_loop lp sc (0 + 4) (HttpError status q # rest))"
    by (rule server_error_retries [OF assms]) simp
  then show ?thesis
    unfolding split l4 using assms by (simp add: emit_def)
qed

text \<open>
  Claim C8, as stated, fails: after three failures in a row with status 503 the delays
  are 2, 4 and 6 seconds, which is not the exponential sequence 2, 4, 8.
\<close>

theorem backoff_is_not_exponential:
  "chunk_loop 0 0 0 three_failures
     = (Responded ''file1'', [], [ChunkBackoff 2, ChunkBackoff 4, ChunkBackoff 6])
   \<and> [2, 4, 6::nat] \<noteq> map (\<lambda>n. 2 ^ n) [1, 2, 3::nat]"
  by (simp add: three_failures_def emit_def on_status_def)

text \<open>
  Claim C8, amended. When \<open>next_chunk\<close> fails with status 500, 502, 503 or 504,
  \<open>upload_with_progress\<close> retries that chunk after a delay that grows linearly, 2 seconds
  times the number of failures in a row (2, 4, 6, 8; the cap of 10 seconds is never
  reached), for up to 4 retries; the fifth failure in a row is raised to the attempt
  loop, which starts the whole transfer again after \<open>2 ^ attempt\<close> seconds when an
  attempt is left and otherwise returns the server-error failure. A chunk that fails
  twice with such a status and then succeeds gives exactly the two delays 2 and 4 and a
  successful result.
\<close>

theorem server_error_chunk_retry:
  assumes "status \<in> set [500, 502, 503, 504]"
  shows "(k < 5 \<longrightarrow>
            chunk_loop lp sc 0 (replicate k (HttpError status q) @ rest)
              = emit (map (\<lambda>n. ChunkBackoff (2 * n)) [1 ..< Suc k]) (chunk_loop lp sc k rest))
       \<and> chunk_loop lp sc 0 (replicate 5 (HttpError status q) @ rest)
           = (RaisedHttp status q, rest,
              [ChunkBackoff 2, ChunkBackoff 4, ChunkBackoff 6, ChunkBackoff 8])
       \<and> handle_http attempt max_retries status q st
           = (if attempt + 1 < max_retries then (NextAttempt, backoff attempt st)
              else (Return (UploadFailed (ServerError status)), st))
       \<and> chunk_loop lp sc 0
            (HttpError status q # HttpError status q # Chunk None (Some file_id) # rest)
           = (Responded file_id, rest, [ChunkBackoff 2, ChunkBackoff 4])"
proof -
  have a: "k < 5 \<longrightarrow>
            chunk_loop lp sc 0 (replicate k (HttpError status q) @ rest)
              = emit (map (\<lambda>n. ChunkBackoff (2 * n)) [1 ..< Suc k]) (chunk_loop lp sc k rest)"
    using server_error_retries [OF assms, of 0 k lp sc q rest] by simp
  have b: "chunk_loop lp sc 0 (replicate 5 (HttpError status q) @ rest)
           = (RaisedHttp status q, rest,
              [ChunkBackoff 2, ChunkBackoff 4, ChunkBackoff 6, ChunkBackoff 8])"
    by (rule five_server_errors [OF assms])
  have c: "handle_http attempt max_retries status q st
           = (if attempt + 1 < max_retries then (NextAttempt, backoff attempt st)
              else (Return (UploadFailed (ServerError status)), st))"
    using assms by (auto simp: handle_http_def)
  have d: "chunk_loop lp sc 0
            (HttpError status q # HttpError status q # Chunk None (Some file_id) # rest)
           = (Responded file_id, rest, [ChunkBackoff 2, ChunkBackoff 4])"
    using assms by (simp add: emit_def on_status_def)
  from a b c d show ?thesis by (intro conjI)
qed

theorem server_error_chunk_retry_witness:
  "503 \<in> set [500, 502, 503, 504::nat]
   \<and> chunk_loop 30 0 0 [HttpError 503 False, HttpError 503 False, Chunk None (Some ''file1'')]
       = (Responded ''file1'', [], [ChunkBackoff 2, ChunkBackoff 4])
   \<and> fst (upload_with_progress True 1000 3 ten_chunks) = UploadOk ''file1''
   \<and> chunk_backoffs (trace (snd (upload_with_progress True 1000 3 ten_chunks))) = [2, 4]
   \<and> reported (trace (snd (upload_with_progress True 1000 3 ten_chunks)))
       = [10, 20, 30, 40, 50, 60, 70, 80, 90]"
proof -
  have h: "503 \<in> set [500, 502, 503, 504::nat]" by simp
  have inst: "chunk_loop 30 0 0 [HttpError 503 False, HttpError 503 False, Chunk None (Some ''file1'')]
       = (Responded ''file1'', [], [ChunkBackoff 2, ChunkBackoff 4])"
    using server_error_chunk_retry [OF h, of 2 30 0 False "[]" 0 3 ten_chunks "''file1''"]
    by (elim conjE)
  have run: "fst (upload_with_progress True 1000 3 ten_chunks) = UploadOk ''file1''
     \<and> chunk_backoffs (trace (snd (upload_with_progress True 1000 3 ten_chunks))) = [2, 4]
     \<and> reported (trace (snd (upload_with_progress True 1000 3 ten_chunks)))
       = [10, 20, 30, 40, 50, 60, 70, 80, 90]"
    by (simp add: upload_unfold ten_chunks_def range_3)
  from h inst run show ?thesis by (intro conjI) simp_all
qed

section \<open>Expired authentication\<close>

text \<open>
  Claim C9, as stated, fails: with \<open>max_retries = 3\<close> an upload that meets status 401 in
  its first and again in its second attempt authenticates twice, creates a new request
  each time (the second attempt reports 20 percent after the first had reported 50), and
  succeeds in its third attempt.
\<close>

theorem auth_expiry_retried_twice_from_start:
  "upload_with_progress True 1000 3 expiring_state
     = (UploadOk ''file1'',
        \<lparr>service = True, auths = [], chunks = [],
         trace = [NewRequest, Progress 50, Pace, AttemptBackoff 1,
                  Authenticate, NewRequest, Progress 20, Pace, AttemptBackoff 2,
                  Authenticate, NewRequest]\<rparr>)"
  by (simp add: upload_unfold expiring_state_def range_3)

text \<open>
  Claim C9, amended. When the chunk loop of an attempt ends with status 401,
  \<open>upload_with_progress\<close> clears \<open>self.service\<close>; if another attempt is left it waits
  \<open>2 ^ attempt\<close> seconds and goes on to the next attempt, and otherwise it returns the
  failure "Authentication failed". An attempt that finds \<open>self.service\<close> cleared
  authenticates and then runs the transfer as every attempt does: with a new request,
  from the beginning. So the transfer is started again, not resumed, and status 401 is
  retried in every attempt but the last.
\<close>

theorem auth_expiry_restarts_transfer:
  assumes svc: "service st"
      and loop: "chunk_loop 0 0 0 (chunks st) = (RaisedHttp 401 q, rest, evs)"
  shows "(attempt + 1 < max_retries \<longrightarrow>
            attempt_body attempt max_retries st
              = (NextAttempt,
                 st\<lparr>service := False, chunks := rest,
                    trace := trace st @ [NewRequest] @ evs @ [AttemptBackoff (2 ^ attempt)]\<rparr>))
       \<and> (\<not> attempt + 1 < max_retries \<longrightarrow>
            attempt_body attempt max_retries st
              = (Return (UploadFailed AuthenticationFailed),
                 st\<lparr>service := False, chunks := rest, trace := trace st @ [NewRequest] @ evs\<rparr>))
       \<and> attempt_body next_attempt max_retries
            (st\<lparr>service := False, auths := AuthOk # later\<rparr>)
           = transfer next_attempt max_retries
               (st\<lparr>auths := later, trace := trace st @ [Authenticate], service := True\<rparr>)
       \<and> take (Suc (length (trace st))) (trace (snd (transfer next_attempt max_retries st)))
           = trace st @ [NewRequest]"
proof -
  have a: "attempt + 1 < max_retries \<longrightarrow>
            attempt_body attempt max_retries st
              = (NextAttempt,
                 st\<lparr>service := False, chunks := rest,
                    trace := trace st @ [NewRequest] @ evs @ [AttemptBackoff (2 ^ attempt)]\<rparr>)"
    using svc loop by (simp add: attempt_body_def transfer_def handle_http_def backoff_def)
  have b: "\<not> attempt + 1 < max_retries \<longrightarrow>
            attempt_body attempt max_retries st
              = (Return (UploadFailed AuthenticationFailed),
                 st\<lparr>service := False, chunks := rest, trace := trace st @ [NewRequest] @ evs\<rparr>)"
    using svc loop by (simp add: attempt_body_def transfer_def handle_http_def backoff_def)
  have c: "attempt_body next_attempt max_retries
            (st\<lparr>service := False, auths := AuthOk # later\<rparr>)
           = transfer next_attempt max_retries
               (st\<lparr>auths := later, trace := trace st @ [Authenticate], service := True\<rparr>)"
    by (simp add: attempt_body_def)
  have d: "take (Suc (length (trace st))) (trace (snd (transfer next_attempt max_retries st)))
           = trace st @ [NewRequest]"
    by (auto simp: transfer_def handle_http_def handle_other_def backoff_def Let_def
             split: prod.splits loop_result.splits)
  from a b c d show ?thesis by (intro conjI)
qed

theorem auth_expiry_restarts_transfer_witness:
  "service expiring_state
   \<and> chunk_loop 0 0 0 (chunks expiring_state)
       = (RaisedHttp 401 False,
          [Chunk (Some (20, 5)) None, HttpError 401 False, Chunk None (Some ''file1'')],
          [Progress 50, Pace])
   \<and> attempt_body 0 3 expiring_state
       = (NextAttempt,
          \<lparr>service = False, auths = [AuthOk, AuthOk],
           chunks = [Chunk (Some (20, 5)) None, HttpError 401 False, Chunk None (Some ''file1'')],
           trace = [NewRequest, Progress 50, Pace, AttemptBackoff 1]\<rparr>)
   \<and> attempt_body 2 3 expiring_state
       = (Return (UploadFailed AuthenticationFailed),
          \<lparr>service = False, auths = [AuthOk, AuthOk],
           chunks = [Chunk (Some (20, 5)) None, HttpError 401 False, Chunk None (Some ''file1'')],
           trace = [NewRequest, Progress 50, Pace]\<rparr>)"
proof -
  have svc: "service expiring_state" by (simp add: expiring_state_def)
  have loop: "chunk_loop 0 0 0 (chunks expiring_state)
       = (RaisedHttp 401 False,
          [Chunk (Some (20, 5)) None, HttpError 401 False, Chunk None (Some ''file1'')],
          [Progress 50, Pace])"
    by (simp add: expiring_state_def on_status_def emit_def)
  show ?thesis
    using svc loop
      auth_expiry_restarts_transfer [OF svc loop, of 0 3 1 "[]"]
      auth_expiry_restarts_transfer [OF svc loop, of 2 3 1 "[]"]
    by (simp add: expiring_state_def)
qed

end
